theory Spec2Isabelle
  imports Complex_Main
begin

section \<open>Regularizers of \<^verbatim>\<open>imitation.regularization\<close>\<close>

text \<open>
  A shallow embedding of \<^verbatim>\<open>src/imitation/regularization/__init__.py\<close>.

  Numbers. Python floats and torch tensors are used through the same operators
  (\<^verbatim>\<open>*\<close>, \<^verbatim>\<open>+\<close>, \<^verbatim>\<open>-\<close>, \<^verbatim>\<open>/\<close>, \<^verbatim>\<open><\<close>, \<^verbatim>\<open>>\<close>), so
  the model has one type \<open>'a\<close> of numeric values and reads the operators from the
  syntactic type classes (\<open>times\<close>, \<open>plus\<close>, \<open>minus\<close>, \<open>uminus\<close>, \<open>inverse\<close>,
  \<open>ord\<close>, \<open>zero\<close>, \<open>one\<close>). These classes assume no law: what is proved of a definition
  holds for every interpretation of the operators, rounding arithmetic included. A
  theorem that needs a law of arithmetic or of the order says so in the sort of its type.

  Names are the source's. Isabelle has no name that ends in an underscore, so the
  source's \<^verbatim>\<open>lambda_\<close> is written \<open>lambda'\<close>.
\<close>

subsection \<open>Errors and loss values\<close>

text \<open>The exceptions that leave the modelled functions.\<close>

datatype error = AssertionError | ZeroDivisionError | OtherError string

text \<open>
  \<^verbatim>\<open>LossType = Union[th.Tensor, float]\<close>. A tensor is kept as its \<^verbatim>\<open>dim()\<close> and its
  content; a tensor of dimension 0 holds one number.
\<close>

datatype 'a loss = PyFloat 'a | Tensor nat 'a

text \<open>\<^verbatim>\<open>isinstance(x, float) or x.dim() == 0\<close>\<close>

fun is_scalar :: "'a loss \<Rightarrow> bool" where
  "is_scalar (PyFloat x) = True"
| "is_scalar (Tensor d x) = (d = 0)"

text \<open>
  \<^verbatim>\<open>val_loss / train_loss\<close>. Python raises ZeroDivisionError when a float is divided
  by a float that equals zero; a division with a tensor operand is torch's and does
  not raise.
\<close>

fun truediv :: "'a::{inverse,zero} loss \<Rightarrow> 'a loss \<Rightarrow> error + 'a" where
  "truediv (PyFloat v) (PyFloat t) = (if t = 0 then Inl ZeroDivisionError else Inr (v / t))"
| "truediv (PyFloat v) (Tensor d t) = Inr (v / t)"
| "truediv (Tensor d v) (PyFloat t) = Inr (v / t)"
| "truediv (Tensor d v) (Tensor e t) = Inr (v / t)"

subsection \<open>Lambda-update strategies\<close>

text \<open>
  \<^verbatim>\<open>IntervalParamScaler.__call__\<close>, with the two fields of the object as the first two
  arguments. The assertion on \<^verbatim>\<open>val_loss\<close> comes first, then the one on
  \<^verbatim>\<open>train_loss\<close>, then the division; \<^verbatim>\<open>tolerable_interval[1]\<close> is \<open>snd\<close> and
  \<^verbatim>\<open>tolerable_interval[0]\<close> is \<open>fst\<close>.
\<close>

definition IntervalParamScaler_call ::
  "'a::{inverse,zero,one,plus,minus,times,ord} \<Rightarrow> 'a \<times> 'a \<Rightarrow> 'a \<Rightarrow> 'a loss \<Rightarrow> 'a loss \<Rightarrow> error + 'a"
where
  "IntervalParamScaler_call scaling_factor tolerable_interval lambda' train_loss val_loss =
     (if \<not> is_scalar val_loss then Inl AssertionError
      else if \<not> is_scalar train_loss then Inl AssertionError
      else case truediv val_loss train_loss of
          Inl e \<Rightarrow> Inl e
        | Inr val_to_train_ratio \<Rightarrow>
            if val_to_train_ratio > snd tolerable_interval
              then Inr (lambda' * (1 + scaling_factor))
            else if val_to_train_ratio < fst tolerable_interval
              then Inr (lambda' * (1 - scaling_factor))
            else Inr lambda')"

text \<open>\<^verbatim>\<open>ConstantParamScaler.__call__\<close>: both losses are dropped.\<close>

definition ConstantParamScaler_call :: "'a \<Rightarrow> 'a loss \<Rightarrow> 'a loss \<Rightarrow> 'a" where
  "ConstantParamScaler_call lambda' train_loss val_loss = lambda'"

text \<open>
  A \<^verbatim>\<open>LambdaUpdater\<close> is any callable of the protocol. The two classes of the source
  are constructors of their own, carrying their fields, so that
  \<^verbatim>\<open>isinstance(u, ConstantParamScaler)\<close> is a test on the constructor. Any other
  callable is \<open>LambdaUpdater f\<close>; the protocol's docstring requires it to be free of
  side effects, so \<open>f\<close> is a function that returns the new lambda or raises.
\<close>

datatype 'a updater =
    ConstantParamScaler
  | IntervalParamScaler 'a "'a \<times> 'a"
  | LambdaUpdater "'a \<Rightarrow> 'a loss \<Rightarrow> 'a loss \<Rightarrow> error + 'a"

fun isinstance_ConstantParamScaler :: "'a updater \<Rightarrow> bool" where
  "isinstance_ConstantParamScaler ConstantParamScaler = True"
| "isinstance_ConstantParamScaler (IntervalParamScaler scaling_factor tolerable_interval) = False"
| "isinstance_ConstantParamScaler (LambdaUpdater f) = False"

text \<open>\<^verbatim>\<open>self.lambda_updater(lambda_, train_loss, val_loss)\<close>: the call, by the callee's class.\<close>

fun updater_call ::
  "'a::{inverse,zero,one,plus,minus,times,ord} updater \<Rightarrow> 'a \<Rightarrow> 'a loss \<Rightarrow> 'a loss \<Rightarrow> error + 'a"
where
  "updater_call ConstantParamScaler lambda' train_loss val_loss =
     Inr (ConstantParamScaler_call lambda' train_loss val_loss)"
| "updater_call (IntervalParamScaler scaling_factor tolerable_interval) lambda' train_loss val_loss =
     IntervalParamScaler_call scaling_factor tolerable_interval lambda' train_loss val_loss"
| "updater_call (LambdaUpdater f) lambda' train_loss val_loss = f lambda' train_loss val_loss"

subsection \<open>The regularizer and its collaborators\<close>

text \<open>
  A regularizer owns its lambda only. The optimizer's parameters, the logger, the
  autograd graph behind a loss and the updater are collaborators it holds by reference
  and acts on. Every call a method makes on a collaborator is written to a trace, oldest
  first:
  \<^item> \<open>UpdaterCalled l t v\<close>: \<^verbatim>\<open>self.lambda_updater(l, t, v)\<close> was invoked;
  \<^item> \<open>LoggerRecord k x\<close>: \<^verbatim>\<open>self.logger.record(k, x)\<close>;
  \<^item> \<open>Backward x\<close>: \<^verbatim>\<open>t.backward()\<close> on a tensor \<open>t\<close> of value \<open>x\<close>;
  \<^item> \<open>SetData g i x\<close>: \<^verbatim>\<open>param.data = x\<close> on parameter \<open>i\<close> of parameter group \<open>g\<close>.
  The failure modes of torch itself (a loss outside an autograd graph, shapes that do
  not broadcast) are not part of the model.
\<close>

datatype 'a event =
    UpdaterCalled 'a "'a loss" "'a loss"
  | LoggerRecord string 'a
  | Backward 'a
  | SetData nat nat 'a

text \<open>
  A parameter group of \<^verbatim>\<open>optimizer.param_groups\<close>: the dict's \<^verbatim>\<open>"params"\<close> (each
  parameter kept as its \<^verbatim>\<open>.data\<close>) and \<^verbatim>\<open>"lr"\<close> entries. torch.optim refuses a
  parameter that stands in two groups, so positions identify parameters.
\<close>

record 'a param_group =
  params :: "'a list"
  lr :: 'a

text \<open>
  Modelled from the spec: the logger (\<^verbatim>\<open>imitation.util.logger.HierarchicalLogger\<close>) is
  not under src/. The spec gives it one operation, \<^verbatim>\<open>record(key, value)\<close>, with no return
  value; here it is the \<open>LoggerRecord\<close> entries of the trace.
\<close>

record 'a Regularizer =
  optimizer :: "'a param_group list"
  lambda' :: 'a
  lambda_updater :: "'a updater"
  trace :: "'a event list"

record 'a LpRegularizer = "'a Regularizer" +
  p :: int

fun logger_records :: "'a event list \<Rightarrow> (string \<times> 'a) list" where
  "logger_records [] = []"
| "logger_records (LoggerRecord k x # es) = (k, x) # logger_records es"
| "logger_records (e # es) = logger_records es"

text \<open>
  \<^verbatim>\<open>Regularizer.__init__\<close>. The argument \<open>logger\<close> is the trace so far: the logger is
  shared and may hold records already.
\<close>

definition Regularizer_init ::
  "'a param_group list \<Rightarrow> 'a \<Rightarrow> 'a updater \<Rightarrow> 'a event list \<Rightarrow> 'a Regularizer"
where
  "Regularizer_init optimizer' initial_lambda lambda_updater' logger =
     (let self = \<lparr>optimizer = optimizer', lambda' = initial_lambda,
                  lambda_updater = lambda_updater', trace = logger\<rparr>
      in self\<lparr>trace := trace self @ [LoggerRecord ''regularization_lambda'' (lambda' self)]\<rparr>)"

text \<open>\<^verbatim>\<open>LpRegularizer.__init__\<close>: the base initialiser, then \<^verbatim>\<open>self.p = p\<close>.\<close>

definition LpRegularizer_init ::
  "'a param_group list \<Rightarrow> 'a \<Rightarrow> 'a updater \<Rightarrow> 'a event list \<Rightarrow> int \<Rightarrow> 'a LpRegularizer"
where
  "LpRegularizer_init optimizer' initial_lambda lambda_updater' logger p' =
     Regularizer.extend (Regularizer_init optimizer' initial_lambda lambda_updater' logger)
       (LpRegularizer.fields p')"

text \<open>
  \<^verbatim>\<open>Regularizer.update_params\<close>, inherited by every subclass (hence the record scheme).
  The result is the exception raised, if any, and the object as the call leaves it.
\<close>

definition update_params ::
  "('a::{inverse,zero,one,plus,minus,times,ord}, 'z) Regularizer_scheme \<Rightarrow> 'a loss \<Rightarrow> 'a loss
     \<Rightarrow> (error + unit) \<times> ('a, 'z) Regularizer_scheme"
where
  "update_params self train_loss val_loss =
     (if \<not> isinstance_ConstantParamScaler (lambda_updater self) then
        (let called = self\<lparr>trace := trace self @ [UpdaterCalled (lambda' self) train_loss val_loss]\<rparr>
         in case updater_call (lambda_updater self) (lambda' self) train_loss val_loss of
              Inl e \<Rightarrow> (Inl e, called)
            | Inr new_lambda \<Rightarrow>
                (let assigned = called\<lparr>lambda' := new_lambda\<rparr>
                 in (Inr (), assigned\<lparr>trace := trace assigned @
                       [LoggerRecord ''regularization_lambda'' (lambda' assigned)]\<rparr>)))
      else (Inr (), self))"

subsection \<open>The loss-term family\<close>

text \<open>
  \<^verbatim>\<open>LossRegularizer.regularize\<close>. The abstract method \<^verbatim>\<open>_regularize_loss\<close> is the
  argument \<open>regularize_loss\<close>, applied to \<open>self\<close> as a method is; \<^verbatim>\<open>th.add\<close> is \<open>+\<close>.
  A method's result is \<open>Some\<close> of the value it returns, or \<open>None\<close> for Python's
  \<^verbatim>\<open>None\<close>.
\<close>

definition LossRegularizer_regularize ::
  "(('a::plus, 'z) Regularizer_scheme \<Rightarrow> 'a \<Rightarrow> 'a) \<Rightarrow> ('a, 'z) Regularizer_scheme \<Rightarrow> 'a
     \<Rightarrow> 'a option \<times> ('a, 'z) Regularizer_scheme"
where
  "LossRegularizer_regularize regularize_loss self loss =
     (let regularized_loss = loss + regularize_loss self loss;
          self1 = self\<lparr>trace := trace self @ [Backward regularized_loss]\<rparr>;
          self2 = self1\<lparr>trace := trace self1 @ [LoggerRecord ''regularized_loss'' regularized_loss]\<rparr>
      in (Some regularized_loss, self2))"

text \<open>
  \<^verbatim>\<open>LpRegularizer._regularize_loss\<close>: the two loops, with \<^verbatim>\<open>penalty\<close> as the
  accumulator. \<^verbatim>\<open>th.linalg.vector_norm\<close> is torch's and is the argument
  \<open>vector_norm\<close>; \<^verbatim>\<open>.pow(p)\<close> with an integer exponent is \<open>powi\<close>.
\<close>

fun penalty_of_params :: "('a \<Rightarrow> int \<Rightarrow> 'a) \<Rightarrow> int \<Rightarrow> 'a list \<Rightarrow> 'a::{plus,inverse,power} \<Rightarrow> 'a" where
  "penalty_of_params vector_norm p' [] penalty = penalty"
| "penalty_of_params vector_norm p' (param # rest) penalty =
     penalty_of_params vector_norm p' rest (penalty + vector_norm param p' powi p')"

fun penalty_of_groups ::
  "('a \<Rightarrow> int \<Rightarrow> 'a) \<Rightarrow> int \<Rightarrow> 'a param_group list \<Rightarrow> 'a::{plus,inverse,power} \<Rightarrow> 'a"
where
  "penalty_of_groups vector_norm p' [] penalty = penalty"
| "penalty_of_groups vector_norm p' (group' # rest) penalty =
     penalty_of_groups vector_norm p' rest (penalty_of_params vector_norm p' (params group') penalty)"

definition LpRegularizer_regularize_loss ::
  "('a \<Rightarrow> int \<Rightarrow> 'a) \<Rightarrow> ('a::{zero,plus,inverse,power}, 'z) LpRegularizer_scheme \<Rightarrow> 'a \<Rightarrow> 'a"
where
  "LpRegularizer_regularize_loss vector_norm self loss =
     lambda' self * penalty_of_groups vector_norm (p self) (optimizer self) 0"

subsection \<open>The weight-mutation family\<close>

text \<open>\<^verbatim>\<open>param.data = x\<close> for parameter \<open>i\<close> of group \<open>g\<close>, on the optimizer's groups.\<close>

definition set_data :: "nat \<Rightarrow> nat \<Rightarrow> 'a \<Rightarrow> 'a param_group list \<Rightarrow> 'a param_group list" where
  "set_data g i x groups = groups[g := (groups ! g)\<lparr>params := (params (groups ! g))[i := x]\<rparr>]"

text \<open>
  \<^verbatim>\<open>WeightRegularizer.regularize\<close>. The abstract method \<^verbatim>\<open>_regularize_weight\<close> is the
  argument \<open>regularize_weight\<close>; it receives the object and the group as they are when the
  loop reaches the parameter, that is with the parameters before it already reassigned.

  The body of the inner loop, for parameter \<open>i\<close> of group \<open>g\<close>:
  \<^verbatim>\<open>param.data = th.add(param.data, self._regularize_weight(param, group))\<close>.
\<close>

definition assign_param ::
  "(('a::plus, 'z) Regularizer_scheme \<Rightarrow> 'a \<Rightarrow> 'a param_group \<Rightarrow> 'a) \<Rightarrow> nat \<Rightarrow> nat
     \<Rightarrow> ('a, 'z) Regularizer_scheme \<Rightarrow> ('a, 'z) Regularizer_scheme"
where
  "assign_param regularize_weight g i self =
     (let group' = optimizer self ! g;
          param = params group' ! i;
          new_data = param + regularize_weight self param group'
      in self\<lparr>optimizer := set_data g i new_data (optimizer self),
               trace := trace self @ [SetData g i new_data]\<rparr>)"

text \<open>
  The inner loop runs over the positions of one group's parameters, the outer loop over
  the positions of the groups; both are called on positions in range only.
\<close>

fun regularize_params ::
  "(('a::plus, 'z) Regularizer_scheme \<Rightarrow> 'a \<Rightarrow> 'a param_group \<Rightarrow> 'a) \<Rightarrow> nat \<Rightarrow> nat list
     \<Rightarrow> ('a, 'z) Regularizer_scheme \<Rightarrow> ('a, 'z) Regularizer_scheme"
where
  "regularize_params regularize_weight g [] self = self"
| "regularize_params regularize_weight g (i # rest) self =
     regularize_params regularize_weight g rest (assign_param regularize_weight g i self)"

fun regularize_groups ::
  "(('a::plus, 'z) Regularizer_scheme \<Rightarrow> 'a \<Rightarrow> 'a param_group \<Rightarrow> 'a) \<Rightarrow> nat list
     \<Rightarrow> ('a, 'z) Regularizer_scheme \<Rightarrow> ('a, 'z) Regularizer_scheme"
where
  "regularize_groups regularize_weight [] self = self"
| "regularize_groups regularize_weight (g # rest) self =
     regularize_groups regularize_weight rest
       (regularize_params regularize_weight g [0..<length (params (optimizer self ! g))] self)"

definition WeightRegularizer_regularize ::
  "(('a::plus, 'z) Regularizer_scheme \<Rightarrow> 'a \<Rightarrow> 'a param_group \<Rightarrow> 'a) \<Rightarrow> ('a, 'z) Regularizer_scheme \<Rightarrow> 'a
     \<Rightarrow> 'a option \<times> ('a, 'z) Regularizer_scheme"
where
  "WeightRegularizer_regularize regularize_weight self loss =
     (let self1 = self\<lparr>trace := trace self @ [Backward loss]\<rparr>
      in (None, regularize_groups regularize_weight [0..<length (optimizer self1)] self1))"

text \<open>
  The parameters of an optimizer in the order in which the two loops reach them: pairs of
  the position of a group and the position of a parameter within it. This serves to
  state what the loops do; the loops themselves do not use it.
\<close>

definition param_positions :: "'a param_group list \<Rightarrow> (nat \<times> nat) list" where
  "param_positions groups =
     concat (map (\<lambda>g. map (\<lambda>i. (g, i)) [0..<length (params (groups ! g))]) [0..<length groups])"

text \<open>
  The object when the loops have made their first \<open>k\<close> assignments after the backward
  pass. Like \<open>param_positions\<close>, this serves to state what the loops do.
\<close>

definition reached ::
  "(('a::plus, 'z) Regularizer_scheme \<Rightarrow> 'a \<Rightarrow> 'a param_group \<Rightarrow> 'a) \<Rightarrow> ('a, 'z) Regularizer_scheme \<Rightarrow> 'a
     \<Rightarrow> nat \<Rightarrow> ('a, 'z) Regularizer_scheme"
where
  "reached regularize_weight self loss k =
     fold (\<lambda>(g, i). assign_param regularize_weight g i) (take k (param_positions (optimizer self)))
       (self\<lparr>trace := trace self @ [Backward loss]\<rparr>)"

text \<open>\<^verbatim>\<open>WeightDecayRegularizer._regularize_weight\<close>\<close>

definition WeightDecayRegularizer_regularize_weight ::
  "('a::{uminus,times}, 'z) Regularizer_scheme \<Rightarrow> 'a \<Rightarrow> 'a param_group \<Rightarrow> 'a"
where
  "WeightDecayRegularizer_regularize_weight self weight group' = - lambda' self * lr group' * weight"

subsection \<open>Finite and non-finite floats\<close>

text \<open>
  A Python float is a finite number, an infinity or NaN; \<^verbatim>\<open>math.isfinite\<close> holds of the
  first only. The type serves to say which lambdas are finite; its arithmetic is not
  modelled.
\<close>

datatype pyfloat = Finite real | PosInf | NegInf | NaN

fun isfinite :: "pyfloat \<Rightarrow> bool" where
  "isfinite (Finite x) = True"
| "isfinite PosInf = False"
| "isfinite NegInf = False"
| "isfinite NaN = False"

section \<open>Properties\<close>

subsection \<open>Auxiliary facts\<close>

lemma truediv_not_assertion: "truediv v t \<noteq> Inl AssertionError"
  by (cases v; cases t) auto

lemma truediv_error_iff:
  "truediv v t = Inl e \<longleftrightarrow> e = ZeroDivisionError \<and> (\<exists>x. v = PyFloat x) \<and> t = PyFloat 0"
  by (cases v; cases t) auto

lemma logger_records_append: "logger_records (es @ fs) = logger_records es @ logger_records fs"
  by (induction es rule: logger_records.induct) simp_all

lemma isinstance_ConstantParamScaler_iff:
  "isinstance_ConstantParamScaler u \<longleftrightarrow> u = ConstantParamScaler"
  by (cases u) simp_all

lemma not_is_scalar_iff: "\<not> is_scalar x \<longleftrightarrow> (\<exists>d v. x = Tensor d v \<and> 0 < d)"
  by (cases x) auto

lemma penalty_of_params_foldl:
  "penalty_of_params vector_norm p' ps penalty =
     foldl (+) penalty (map (\<lambda>param. vector_norm param p' powi p') ps)"
  by (induction ps arbitrary: penalty) simp_all

lemma penalty_of_groups_foldl:
  "penalty_of_groups vector_norm p' groups penalty =
     foldl (+) penalty (map (\<lambda>param. vector_norm param p' powi p') (concat (map params groups)))"
  by (induction groups arbitrary: penalty) (simp_all add: penalty_of_params_foldl)

lemma foldl_plus_sum_list: "foldl (+) (a::'a::comm_monoid_add) xs = a + sum_list xs"
  by (induction xs arbitrary: a) (simp_all add: add.assoc)

subsection \<open>IntervalParamScaler\<close>

text \<open>
  C1, as stated, at an inverted interval. With \<open>(low, high) = (2, 1)\<close> and the ratio
  \<open>3/2\<close>, the ratio is below \<open>low\<close> and the call scales lambda up, not down: the test
  against \<open>high\<close> comes first. With the ratio \<open>1\<close>, equal to \<open>high\<close>, lambda is scaled
  down, not left unchanged.
\<close>

theorem IntervalParamScaler_call_inverted_interval:
  "truediv (PyFloat (3/2)) (PyFloat 1) = Inr (3/2 :: real)
   \<and> (3/2 :: real) < fst (2 :: real, 1 :: real)
   \<and> IntervalParamScaler_call (1/10) (2, 1) 1 (PyFloat 1) (PyFloat (3/2)) \<noteq> Inr ((1::real) * (1 - 1/10))
   \<and> IntervalParamScaler_call (1/10) (2, 1) 1 (PyFloat 1) (PyFloat (3/2)) = Inr ((1::real) * (1 + 1/10))
   \<and> truediv (PyFloat 1) (PyFloat 1) = Inr (snd (2 :: real, 1 :: real))
   \<and> IntervalParamScaler_call (1/10) (2, 1) 1 (PyFloat 1) (PyFloat 1) \<noteq> Inr (1::real)"
  by (simp add: IntervalParamScaler_call_def)

text \<open>
  C1 (amended). For scalar losses whose ratio \<open>val_loss / train_loss\<close> is computed, and
  an interval with \<open>low \<le> high\<close> over linearly ordered numbers: the call returns
  \<open>lambda * (1 + scaling_factor)\<close> when the ratio is above \<open>high\<close>,
  \<open>lambda * (1 - scaling_factor)\<close> when it is below \<open>low\<close>, and lambda itself otherwise;
  a ratio equal to either bound leaves lambda unchanged.
\<close>

theorem IntervalParamScaler_call_cases:
  fixes lambda' scaling_factor low high ratio :: "'a::{linorder,inverse,zero,one,plus,minus,times}"
  assumes "is_scalar train_loss" and "is_scalar val_loss"
    and "truediv val_loss train_loss = Inr ratio" and "low \<le> high"
  shows "(high < ratio \<longrightarrow>
            IntervalParamScaler_call scaling_factor (low, high) lambda' train_loss val_loss
              = Inr (lambda' * (1 + scaling_factor)))
       \<and> (ratio < low \<longrightarrow>
            IntervalParamScaler_call scaling_factor (low, high) lambda' train_loss val_loss
              = Inr (lambda' * (1 - scaling_factor)))
       \<and> (\<not> high < ratio \<and> \<not> ratio < low \<longrightarrow>
            IntervalParamScaler_call scaling_factor (low, high) lambda' train_loss val_loss = Inr lambda')
       \<and> (ratio = low \<or> ratio = high \<longrightarrow>
            IntervalParamScaler_call scaling_factor (low, high) lambda' train_loss val_loss = Inr lambda')"
  using assms by (auto simp: IntervalParamScaler_call_def)

text \<open>
  The spec's examples: interval \<open>(0.9, 1.1)\<close>, scaling factor \<open>0.1\<close>, and the ratios
  \<open>1.5\<close>, \<open>0.5\<close>, \<open>1.0\<close>, \<open>1.1\<close> and \<open>0.9\<close>.
\<close>

theorem IntervalParamScaler_call_cases_witness:
  "IntervalParamScaler_call (1/10) (9/10, 11/10) (1::real) (PyFloat 1) (PyFloat (3/2)) = Inr (1 * (1 + 1/10))
 \<and> IntervalParamScaler_call (1/10) (9/10, 11/10) (1::real) (Tensor 0 2) (Tensor 0 1) = Inr (1 * (1 - 1/10))
 \<and> IntervalParamScaler_call (1/10) (9/10, 11/10) (1::real) (PyFloat 1) (PyFloat 1) = Inr 1
 \<and> IntervalParamScaler_call (1/10) (9/10, 11/10) (1::real) (PyFloat 1) (PyFloat (11/10)) = Inr 1
 \<and> IntervalParamScaler_call (1/10) (9/10, 11/10) (1::real) (PyFloat 1) (PyFloat (9/10)) = Inr 1"
  using IntervalParamScaler_call_cases [of "PyFloat 1" "PyFloat (3/2)" "3/2" "9/10" "11/10" "1/10" "1::real"]
        IntervalParamScaler_call_cases [of "Tensor 0 2" "Tensor 0 1" "1/2" "9/10" "11/10" "1/10" "1::real"]
        IntervalParamScaler_call_cases [of "PyFloat 1" "PyFloat 1" "1" "9/10" "11/10" "1/10" "1::real"]
        IntervalParamScaler_call_cases [of "PyFloat 1" "PyFloat (11/10)" "11/10" "9/10" "11/10" "1/10" "1::real"]
        IntervalParamScaler_call_cases [of "PyFloat 1" "PyFloat (9/10)" "9/10" "9/10" "11/10" "1/10" "1::real"]
  by simp

text \<open>
  C7. A loss is not scalar exactly when it is a tensor of dimension above zero. When
  either loss is not scalar the call raises AssertionError, whatever the division would
  give, and \<open>update_params\<close> passes the exception on: the updater was called, nothing
  else happened. When both losses are scalar no assertion fires.
\<close>

theorem IntervalParamScaler_call_assertion:
  "(\<not> is_scalar x \<longleftrightarrow> (\<exists>d v. x = Tensor d v \<and> 0 < d))
 \<and> (\<not> is_scalar train_loss \<or> \<not> is_scalar val_loss \<longrightarrow>
      IntervalParamScaler_call scaling_factor tolerable_interval lam train_loss val_loss
        = Inl AssertionError
    \<and> (lambda_updater self = IntervalParamScaler scaling_factor tolerable_interval \<longrightarrow>
         update_params self train_loss val_loss =
           (Inl AssertionError,
            self\<lparr>trace := trace self @ [UpdaterCalled (lambda' self) train_loss val_loss]\<rparr>)))
 \<and> (is_scalar train_loss \<and> is_scalar val_loss \<longrightarrow>
      IntervalParamScaler_call scaling_factor tolerable_interval lam train_loss val_loss
        \<noteq> Inl AssertionError)"
  by (auto simp: IntervalParamScaler_call_def update_params_def Let_def not_is_scalar_iff
        truediv_not_assertion split: sum.splits)

text \<open>
  A tensor of dimension 1 or 2 on either side raises; a float and a tensor of dimension 0
  do not.
\<close>

theorem IntervalParamScaler_call_assertion_witness:
  "IntervalParamScaler_call (1/10) (9/10, 11/10) (1::real) (PyFloat 1) (Tensor 1 5) = Inl AssertionError
 \<and> IntervalParamScaler_call (1/10) (9/10, 11/10) (1::real) (Tensor 2 5) (PyFloat 1) = Inl AssertionError
 \<and> update_params (Regularizer_init [] (1::real) (IntervalParamScaler (1/10) (9/10, 11/10)) [])
      (Tensor 2 5) (PyFloat 1)
    = (Inl AssertionError,
       \<lparr>optimizer = [], lambda' = 1, lambda_updater = IntervalParamScaler (1/10) (9/10, 11/10),
        trace = [LoggerRecord ''regularization_lambda'' 1, UpdaterCalled 1 (Tensor 2 5) (PyFloat 1)]\<rparr>)
 \<and> IntervalParamScaler_call (1/10) (9/10, 11/10) (1::real) (PyFloat 1) (Tensor 0 5) \<noteq> Inl AssertionError"
  using IntervalParamScaler_call_assertion
          [where train_loss = "PyFloat 1" and val_loss = "Tensor 1 5" and scaling_factor = "1/10"
             and tolerable_interval = "(9/10, 11/10)" and lam = "1::real"
             and x = "Tensor 1 (5::real)"
             and self = "Regularizer_init [] (1::real) (IntervalParamScaler (1/10) (9/10, 11/10)) []"]
        IntervalParamScaler_call_assertion
          [where train_loss = "Tensor 2 5" and val_loss = "PyFloat 1" and scaling_factor = "1/10"
             and tolerable_interval = "(9/10, 11/10)" and lam = "1::real"
             and x = "Tensor 1 (5::real)"
             and self = "Regularizer_init [] (1::real) (IntervalParamScaler (1/10) (9/10, 11/10)) []"]
        IntervalParamScaler_call_assertion
          [where train_loss = "PyFloat 1" and val_loss = "Tensor 0 5" and scaling_factor = "1/10"
             and tolerable_interval = "(9/10, 11/10)" and lam = "1::real"
             and x = "Tensor 1 (5::real)"
             and self = "Regularizer_init [] (1::real) (IntervalParamScaler (1/10) (9/10, 11/10)) []"]
  by (simp add: Regularizer_init_def)

subsection \<open>Regularizer.update_params\<close>




text \<open>
  C9. When the strategy is not a ConstantParamScaler and its call raises \<open>e\<close>,
  \<open>update_params\<close> raises \<open>e\<close>, lambda keeps its value and the logger has no new
  record; the optimizer and the strategy are untouched too.
\<close>

theorem update_params_atomic_on_error:
  assumes "lambda_updater self \<noteq> ConstantParamScaler"
    and "updater_call (lambda_updater self) (lambda' self) train_loss val_loss = Inl e"
  shows "fst (update_params self train_loss val_loss) = Inl e
       \<and> lambda' (snd (update_params self train_loss val_loss)) = lambda' self
       \<and> logger_records (trace (snd (update_params self train_loss val_loss)))
           = logger_records (trace self)
       \<and> optimizer (snd (update_params self train_loss val_loss)) = optimizer self
       \<and> lambda_updater (snd (update_params self train_loss val_loss)) = lambda_updater self"
  using assms
  by (simp add: update_params_def Let_def isinstance_ConstantParamScaler_iff logger_records_append)

text \<open>The division by zero of an IntervalParamScaler on a float \<^verbatim>\<open>train_loss\<close> of zero.\<close>

theorem update_params_atomic_on_error_witness:
  "fst (update_params (Regularizer_init [] (1::real) (IntervalParamScaler (1/10) (9/10, 11/10)) [])
          (PyFloat 0) (PyFloat (3/2)))
     = Inl ZeroDivisionError
   \<and> lambda' (snd (update_params (Regularizer_init [] (1::real) (IntervalParamScaler (1/10) (9/10, 11/10)) [])
          (PyFloat 0) (PyFloat (3/2)))) = 1
   \<and> logger_records (trace (snd (update_params
          (Regularizer_init [] (1::real) (IntervalParamScaler (1/10) (9/10, 11/10)) [])
          (PyFloat 0) (PyFloat (3/2)))))
       = [(''regularization_lambda'', 1)]"
  using update_params_atomic_on_error
          [of "Regularizer_init [] (1::real) (IntervalParamScaler (1/10) (9/10, 11/10)) []"
              "PyFloat 0" "PyFloat (3/2)" ZeroDivisionError]
  by (simp add: Regularizer_init_def IntervalParamScaler_call_def)

subsection \<open>The loss-term family\<close>

text \<open>
  C5. \<open>LossRegularizer.regularize\<close> forms \<open>loss + _regularize_loss(loss)\<close>, runs the
  backward pass on that value, then records it under \<open>"regularized_loss"\<close>, and returns
  it; nothing else changes.
\<close>

theorem LossRegularizer_regularize_combined:
  "LossRegularizer_regularize regularize_loss self loss =
     (Some (loss + regularize_loss self loss),
      self\<lparr>trace := trace self @ [Backward (loss + regularize_loss self loss),
                                  LoggerRecord ''regularized_loss'' (loss + regularize_loss self loss)]\<rparr>)"
  by (simp add: LossRegularizer_regularize_def Let_def)

text \<open>
  C3. The Lp penalty is lambda times the sum, accumulated from 0 in the order of the
  groups and of the parameters within each group, of \<open>vector_norm param p\<close> to the power
  \<open>p\<close>; it is the same for any two loss arguments. This holds for every \<open>p\<close>.
\<close>

theorem LpRegularizer_regularize_loss_sum:
  "LpRegularizer_regularize_loss vector_norm self loss =
     lambda' self * foldl (+) 0 (map (\<lambda>param. vector_norm param (p self) powi (p self))
                                   (concat (map params (optimizer self))))
 \<and> LpRegularizer_regularize_loss vector_norm self loss
     = LpRegularizer_regularize_loss vector_norm self loss'"
  by (simp add: LpRegularizer_regularize_loss_def penalty_of_groups_foldl)

text \<open>Where addition is associative and commutative the accumulation is the sum of the list.\<close>

lemma LpRegularizer_regularize_loss_sum_list:
  fixes self :: "('a::field, 'z) LpRegularizer_scheme"
  shows "LpRegularizer_regularize_loss vector_norm self loss =
     lambda' self * (\<Sum>param\<leftarrow>concat (map params (optimizer self)).
                        vector_norm param (p self) powi (p self))"
  by (simp add: LpRegularizer_regularize_loss_def penalty_of_groups_foldl foldl_plus_sum_list)

subsection \<open>The weight-mutation family\<close>

text \<open>
  C4, as stated, at a weight of zero: two groups with the learning rates \<open>0.1\<close> and
  \<open>0.2\<close> give the same delta.
\<close>

theorem WeightDecayRegularizer_regularize_weight_zero_weight:
  "lr \<lparr>params = [0], lr = (1/10::real)\<rparr> \<noteq> lr \<lparr>params = [0], lr = (2/10::real)\<rparr>
 \<and> WeightDecayRegularizer_regularize_weight (Regularizer_init [] (1/2) ConstantParamScaler []) 0
      \<lparr>params = [0], lr = (1/10::real)\<rparr>
   = WeightDecayRegularizer_regularize_weight (Regularizer_init [] (1/2) ConstantParamScaler []) 0
      \<lparr>params = [0], lr = (2/10::real)\<rparr>"
  by (simp add: WeightDecayRegularizer_regularize_weight_def)

text \<open>
  C4 (amended). The delta is \<open>- lambda * lr * weight\<close>, the products taken from the left,
  with \<open>lr\<close> read from the group passed with the weight and nothing else of the group
  read: two groups with equal learning rates give equal deltas for equal weights. This
  holds whatever the arithmetic is. Groups with distinct learning rates need not give
  distinct deltas.
\<close>

theorem WeightDecayRegularizer_regularize_weight_delta:
  "WeightDecayRegularizer_regularize_weight self weight g = - lambda' self * lr g * weight
   \<and> (lr g1 = lr g2 \<longrightarrow>
        WeightDecayRegularizer_regularize_weight self weight g1
          = WeightDecayRegularizer_regularize_weight self weight g2)"
  by (simp add: WeightDecayRegularizer_regularize_weight_def)

theorem WeightDecayRegularizer_regularize_weight_delta_witness:
  "WeightDecayRegularizer_regularize_weight (Regularizer_init [] (1/2) ConstantParamScaler []) 2
      \<lparr>params = [2], lr = (1/10::real)\<rparr> = - (1/2) * (1/10) * 2
 \<and> WeightDecayRegularizer_regularize_weight (Regularizer_init [] (1/2) ConstantParamScaler []) 2
      \<lparr>params = [2], lr = (1/10::real)\<rparr>
   = WeightDecayRegularizer_regularize_weight (Regularizer_init [] (1/2) ConstantParamScaler []) 2
      \<lparr>params = [2, 7], lr = (1/10::real)\<rparr>"
  using WeightDecayRegularizer_regularize_weight_delta
          [of "Regularizer_init [] (1/2) ConstantParamScaler []" "2::real"
              "\<lparr>params = [2], lr = (1/10::real)\<rparr>"
              "\<lparr>params = [2], lr = (1/10::real)\<rparr>" "\<lparr>params = [2, 7], lr = (1/10::real)\<rparr>"]
  by (simp add: Regularizer_init_def)

text \<open>
  In exact arithmetic (an integral domain) distinct learning rates do give distinct
  deltas when lambda and the weight are not zero. Rounded products can coincide, so this
  is not a property of the program's floats.
\<close>

lemma WeightDecayRegularizer_regularize_weight_distinct_exact:
  fixes weight :: "'a::idom"
  assumes "lambda' self \<noteq> 0" and "weight \<noteq> 0" and "lr g1 \<noteq> lr g2"
  shows "WeightDecayRegularizer_regularize_weight self weight g1
          \<noteq> WeightDecayRegularizer_regularize_weight self weight g2"
  using assms by (simp add: WeightDecayRegularizer_regularize_weight_def)

text \<open>
  C10. \<open>WeightRegularizer.regularize\<close> returns \<^verbatim>\<open>None\<close> for every loss, while
  \<open>LossRegularizer.regularize\<close> returns the combined loss.
\<close>

theorem WeightRegularizer_regularize_returns_None:
  "fst (WeightRegularizer_regularize regularize_weight self loss) = None
 \<and> fst (LossRegularizer_regularize regularize_loss self' loss) = Some (loss + regularize_loss self' loss)"
  by (simp add: WeightRegularizer_regularize_def LossRegularizer_regularize_def Let_def)

subsection \<open>WeightRegularizer.regularize\<close>

text \<open>
  The two loops in closed form, for an adjustment that reads neither the other
  parameters nor the trace. The inner loop is taken at any list of distinct positions, so
  that the induction can pass over the positions already reassigned.
\<close>

lemma regularize_params_closed:
  fixes rw :: "('a::plus, 'z) Regularizer_scheme \<Rightarrow> 'a \<Rightarrow> 'a param_group \<Rightarrow> 'a"
  assumes frame: "\<And>s w gr opt tr ps. rw (s\<lparr>optimizer := opt, trace := tr\<rparr>) w (gr\<lparr>params := ps\<rparr>) = rw s w gr"
    and "distinct is" and "\<forall>i\<in>set is. i < length (params (optimizer s ! g))"
    and "g < length (optimizer s)"
  shows "regularize_params rw g is s =
     s\<lparr>optimizer := (optimizer s)[g := (optimizer s ! g)\<lparr>params :=
           map (\<lambda>j. if j \<in> set is
                     then params (optimizer s ! g) ! j + rw s (params (optimizer s ! g) ! j) (optimizer s ! g)
                     else params (optimizer s ! g) ! j) [0..<length (params (optimizer s ! g))]\<rparr>],
        trace := trace s @ map (\<lambda>i. SetData g i
           (params (optimizer s ! g) ! i + rw s (params (optimizer s ! g) ! i) (optimizer s ! g))) is\<rparr>"
  using assms(2-)
proof (induction "is" arbitrary: s)
  case Nil
  then show ?case by (simp add: map_nth)
next
  case (Cons i rest)
  define grp where "grp = optimizer s ! g"
  define ps where "ps = params grp"
  define new where "new = ps ! i + rw s (ps ! i) grp"
  define s1 where "s1 = s\<lparr>optimizer := set_data g i new (optimizer s), trace := trace s @ [SetData g i new]\<rparr>"
  have g: "g < length (optimizer s)" and i: "i < length ps" and inotin: "i \<notin> set rest"
    and rest: "distinct rest" "\<forall>j\<in>set rest. j < length ps"
    using Cons.prems by (auto simp: ps_def grp_def)
  have grp1: "optimizer s1 ! g = grp\<lparr>params := ps[i := new]\<rparr>"
    using g by (simp add: s1_def set_data_def grp_def ps_def)
  have step: "regularize_params rw g (i # rest) s = regularize_params rw g rest s1"
    by (simp add: assign_param_def Let_def s1_def new_def ps_def grp_def)
  have rw1: "rw s1 w (optimizer s1 ! g) = rw s w grp" for w
    unfolding grp1 unfolding s1_def by (rule frame)
  have IH: "regularize_params rw g rest s1 =
     s1\<lparr>optimizer := (optimizer s1)[g := (optimizer s1 ! g)\<lparr>params :=
           map (\<lambda>j. if j \<in> set rest
                     then params (optimizer s1 ! g) ! j + rw s1 (params (optimizer s1 ! g) ! j) (optimizer s1 ! g)
                     else params (optimizer s1 ! g) ! j) [0..<length (params (optimizer s1 ! g))]\<rparr>],
        trace := trace s1 @ map (\<lambda>i. SetData g i
           (params (optimizer s1 ! g) ! i + rw s1 (params (optimizer s1 ! g) ! i) (optimizer s1 ! g))) rest\<rparr>"
    using rest g by (intro Cons.IH) (simp_all add: grp1, simp add: s1_def set_data_def)
  have keep: "ps[i := new] ! j = ps ! j" if "j \<in> set rest" for j
    using that inotin by (cases "i = j") simp_all
  have lists: "map (\<lambda>j. if j \<in> set rest then ps[i := new] ! j + rw s (ps[i := new] ! j) grp
                        else ps[i := new] ! j) [0..<length ps]
             = map (\<lambda>j. if j \<in> set (i # rest) then ps ! j + rw s (ps ! j) grp else ps ! j) [0..<length ps]"
  proof (rule map_cong [OF refl])
    fix j
    show "(if j \<in> set rest then ps[i := new] ! j + rw s (ps[i := new] ! j) grp else ps[i := new] ! j)
        = (if j \<in> set (i # rest) then ps ! j + rw s (ps ! j) grp else ps ! j)"
    proof (cases "j \<in> set rest")
      case True
      then show ?thesis by (simp add: keep)
    next
      case False
      show ?thesis
      proof (cases "j = i")
        case True
        with i inotin show ?thesis by (simp add: new_def)
      next
        case neq: False
        with False show ?thesis by simp
      qed
    qed
  qed
  have evs: "map (\<lambda>j. SetData g j (ps[i := new] ! j + rw s (ps[i := new] ! j) grp)) rest
           = map (\<lambda>j. SetData g j (ps ! j + rw s (ps ! j) grp)) rest"
    by (simp add: keep)
  have IH': "regularize_params rw g rest s1 =
     s1\<lparr>optimizer := (optimizer s1)[g := grp\<lparr>params :=
           map (\<lambda>j. if j \<in> set rest then ps[i := new] ! j + rw s (ps[i := new] ! j) grp
                     else ps[i := new] ! j) [0..<length ps]\<rparr>],
        trace := trace s1 @ map (\<lambda>j. SetData g j (ps[i := new] ! j + rw s (ps[i := new] ! j) grp)) rest\<rparr>"
    unfolding IH rw1 unfolding grp1 by (simp cong: if_cong)
  have "regularize_params rw g (i # rest) s =
     s\<lparr>optimizer := (optimizer s)[g := grp\<lparr>params :=
           map (\<lambda>j. if j \<in> set (i # rest) then ps ! j + rw s (ps ! j) grp else ps ! j)
             [0..<length ps]\<rparr>],
        trace := trace s @ map (\<lambda>j. SetData g j (ps ! j + rw s (ps ! j) grp)) (i # rest)\<rparr>"
    unfolding step IH' lists evs
    by (simp add: s1_def set_data_def new_def)
  then show ?case
    unfolding ps_def grp_def .
qed

lemma regularize_params_all:
  fixes rw :: "('a::plus, 'z) Regularizer_scheme \<Rightarrow> 'a \<Rightarrow> 'a param_group \<Rightarrow> 'a"
  assumes frame: "\<And>s w gr opt tr ps. rw (s\<lparr>optimizer := opt, trace := tr\<rparr>) w (gr\<lparr>params := ps\<rparr>) = rw s w gr"
    and g: "g < length (optimizer s)"
  shows "regularize_params rw g [0..<length (params (optimizer s ! g))] s =
     s\<lparr>optimizer := (optimizer s)[g := (optimizer s ! g)\<lparr>params :=
           map (\<lambda>weight. weight + rw s weight (optimizer s ! g)) (params (optimizer s ! g))\<rparr>],
        trace := trace s @ map (\<lambda>i. SetData g i
           (params (optimizer s ! g) ! i + rw s (params (optimizer s ! g) ! i) (optimizer s ! g)))
           [0..<length (params (optimizer s ! g))]\<rparr>"
proof -
  have aux: "map (\<lambda>j. if j < length xs then f (xs ! j) else xs ! j) [0..<length xs] = map f xs"
    for f :: "'a \<Rightarrow> 'a" and xs
    by (rule nth_equalityI) simp_all
  show ?thesis
    by (subst regularize_params_closed [OF frame _ _ g])
       (simp_all add: aux [of "params (optimizer s ! g)" "\<lambda>weight. weight + rw s weight (optimizer s ! g)"])
qed

lemma regularize_groups_closed:
  fixes rw :: "('a::plus, 'z) Regularizer_scheme \<Rightarrow> 'a \<Rightarrow> 'a param_group \<Rightarrow> 'a"
  assumes frame: "\<And>s w gr opt tr ps. rw (s\<lparr>optimizer := opt, trace := tr\<rparr>) w (gr\<lparr>params := ps\<rparr>) = rw s w gr"
    and "distinct gs" and "\<forall>g\<in>set gs. g < length (optimizer s)"
  shows "regularize_groups rw gs s =
     s\<lparr>optimizer := map (\<lambda>k. if k \<in> set gs
              then (optimizer s ! k)\<lparr>params :=
                     map (\<lambda>weight. weight + rw s weight (optimizer s ! k)) (params (optimizer s ! k))\<rparr>
              else optimizer s ! k) [0..<length (optimizer s)],
        trace := trace s @ concat (map (\<lambda>k. map (\<lambda>i. SetData k i
           (params (optimizer s ! k) ! i + rw s (params (optimizer s ! k) ! i) (optimizer s ! k)))
           [0..<length (params (optimizer s ! k))]) gs)\<rparr>"
  using assms(2-)
proof (induction gs arbitrary: s)
  case Nil
  then show ?case by (simp add: map_nth)
next
  case (Cons g rest)
  define upd where "upd = (\<lambda>gr. gr\<lparr>params := map (\<lambda>weight. weight + rw s weight gr) (params gr)\<rparr>)"
  define evs where "evs = (\<lambda>k gr. map (\<lambda>i. SetData k i (params gr ! i + rw s (params gr ! i) gr))
                                    [0..<length (params gr)])"
  define s1 where "s1 = s\<lparr>optimizer := (optimizer s)[g := upd (optimizer s ! g)],
                          trace := trace s @ evs g (optimizer s ! g)\<rparr>"
  have g: "g < length (optimizer s)" and gnotin: "g \<notin> set rest"
    and rest: "distinct rest" "\<forall>k\<in>set rest. k < length (optimizer s)"
    using Cons.prems by auto
  have frame': "rw (s\<lparr>optimizer := opt, trace := tr\<rparr>) w gr = rw s w gr" for opt tr w gr
    using frame [where s = s and opt = opt and tr = tr and w = w and gr = gr and ps = "params gr"] by simp
  have step: "regularize_groups rw (g # rest) s = regularize_groups rw rest s1"
    by (simp add: regularize_params_all [OF frame g] s1_def upd_def evs_def)
  have rw1: "rw s1 = rw s"
    by (intro ext) (simp add: s1_def frame')
  have keep: "optimizer s1 ! k = optimizer s ! k" if "k \<in> set rest" for k
    using that gnotin by (cases "g = k") (simp_all add: s1_def)
  have len1: "length (optimizer s1) = length (optimizer s)"
    by (simp add: s1_def)
  have IH: "regularize_groups rw rest s1 =
     s1\<lparr>optimizer := map (\<lambda>k. if k \<in> set rest then upd (optimizer s1 ! k) else optimizer s1 ! k)
                         [0..<length (optimizer s)],
         trace := trace s1 @ concat (map (\<lambda>k. evs k (optimizer s1 ! k)) rest)\<rparr>"
    using rest by (subst Cons.IH) (simp_all add: len1 rw1 upd_def evs_def)
  have groups: "map (\<lambda>k. if k \<in> set rest then upd (optimizer s1 ! k) else optimizer s1 ! k)
                  [0..<length (optimizer s)]
              = map (\<lambda>k. if k \<in> set (g # rest) then upd (optimizer s ! k) else optimizer s ! k)
                  [0..<length (optimizer s)]"
  proof (rule map_cong [OF refl])
    fix k
    assume "k \<in> set [0..<length (optimizer s)]"
    then have k: "k < length (optimizer s)" by simp
    show "(if k \<in> set rest then upd (optimizer s1 ! k) else optimizer s1 ! k)
        = (if k \<in> set (g # rest) then upd (optimizer s ! k) else optimizer s ! k)"
    proof (cases "k \<in> set rest")
      case True
      then show ?thesis by (simp add: keep)
    next
      case False
      show ?thesis
      proof (cases "k = g")
        case True
        with g gnotin show ?thesis by (simp add: s1_def)
      next
        case neq: False
        with False k show ?thesis by (simp add: s1_def)
      qed
    qed
  qed
  have events: "concat (map (\<lambda>k. evs k (optimizer s1 ! k)) rest)
              = concat (map (\<lambda>k. evs k (optimizer s ! k)) rest)"
    by (simp add: keep cong: map_cong)
  have "regularize_groups rw (g # rest) s =
     s\<lparr>optimizer := map (\<lambda>k. if k \<in> set (g # rest) then upd (optimizer s ! k) else optimizer s ! k)
                        [0..<length (optimizer s)],
        trace := trace s @ concat (map (\<lambda>k. evs k (optimizer s ! k)) (g # rest))\<rparr>"
    unfolding step IH groups events by (simp add: s1_def)
  then show ?case
    unfolding upd_def evs_def .
qed

text \<open>An assignment keeps the number of parameters of every group.\<close>

lemma set_data_shape:
  "map (\<lambda>gr. length (params gr)) (set_data g i x groups) = map (\<lambda>gr. length (params gr)) groups"
  by (cases "g < length groups")
     (simp_all add: set_data_def map_update list_update_same_conv list_update_beyond)

lemma logger_records_no_LoggerRecord:
  "\<forall>e\<in>set es. \<exists>g i x. e = SetData g i x \<Longrightarrow> logger_records es = []"
  by (induction es) auto

lemma regularize_params_lambda:
  "lambda' (regularize_params rw g is s) = lambda' s"
  by (induction "is" arbitrary: s) (simp_all add: assign_param_def Let_def)

lemma regularize_groups_lambda:
  "lambda' (regularize_groups rw gs s) = lambda' s"
  by (induction gs arbitrary: s) (simp_all add: regularize_params_lambda)

text \<open>
  The loops as one pass over \<open>param_positions\<close>, and what a pass does to a position it
  reaches and to the positions it does not.
\<close>

lemma regularize_params_fold:
  "regularize_params rw g is s = fold (\<lambda>i. assign_param rw g i) is s"
  by (induction "is" arbitrary: s) simp_all

lemma assign_param_shape:
  "map (\<lambda>gr. length (params gr)) (optimizer (assign_param rw g i s))
     = map (\<lambda>gr. length (params gr)) (optimizer s)"
  by (simp add: assign_param_def Let_def set_data_shape)

lemma set_data_lr: "map lr (set_data g i x groups) = map lr groups"
  by (cases "g < length groups")
     (simp_all add: set_data_def map_update list_update_same_conv list_update_beyond)

lemma assign_param_lr: "map lr (optimizer (assign_param rw g i s)) = map lr (optimizer s)"
  by (simp add: assign_param_def Let_def set_data_lr)

lemma fold_assign_shape:
  "map (\<lambda>gr. length (params gr)) (optimizer (fold (\<lambda>(g, i). assign_param rw g i) ps s))
     = map (\<lambda>gr. length (params gr)) (optimizer s)"
  by (induction ps arbitrary: s) (simp_all add: assign_param_shape split: prod.splits)

lemma fold_assign_lr:
  "map lr (optimizer (fold (\<lambda>(g, i). assign_param rw g i) ps s)) = map lr (optimizer s)"
  by (induction ps arbitrary: s) (simp_all add: assign_param_lr split: prod.splits)

lemma shape_nth:
  assumes "map (\<lambda>gr. length (params gr)) xs = map (\<lambda>gr. length (params gr)) ys"
  shows "length xs = length ys"
    and "k < length ys \<Longrightarrow> length (params (xs ! k)) = length (params (ys ! k))"
proof -
  show len: "length xs = length ys"
    using assms by (rule map_eq_imp_length_eq)
  show "length (params (xs ! k)) = length (params (ys ! k))" if "k < length ys"
    using that len arg_cong [OF assms, of "\<lambda>zs. zs ! k"] by simp
qed

lemma regularize_groups_fold:
  assumes "\<forall>g\<in>set gs. g < length (optimizer s)"
  shows "regularize_groups rw gs s =
     fold (\<lambda>(g, i). assign_param rw g i)
       (concat (map (\<lambda>g. map (\<lambda>i. (g, i)) [0..<length (params (optimizer s ! g))]) gs)) s"
  using assms
proof (induction gs arbitrary: s)
  case Nil
  then show ?case by simp
next
  case (Cons g rest)
  define s1 where "s1 = regularize_params rw g [0..<length (params (optimizer s ! g))] s"
  have s1: "s1 = fold (\<lambda>(g, i). assign_param rw g i)
                   (map (\<lambda>i. (g, i)) [0..<length (params (optimizer s ! g))]) s"
    by (simp add: s1_def regularize_params_fold fold_map comp_def)
  have shape: "map (\<lambda>gr. length (params gr)) (optimizer s1) = map (\<lambda>gr. length (params gr)) (optimizer s)"
    unfolding s1 by (rule fold_assign_shape)
  have rest: "\<forall>k\<in>set rest. k < length (optimizer s1)"
    using Cons.prems shape_nth(1) [OF shape] by simp
  have same: "map (\<lambda>k. map (\<lambda>i. (k, i)) [0..<length (params (optimizer s1 ! k))]) rest
            = map (\<lambda>k. map (\<lambda>i. (k, i)) [0..<length (params (optimizer s ! k))]) rest"
    using Cons.prems shape_nth(2) [OF shape] by (intro map_cong refl) simp
  have "regularize_groups rw (g # rest) s = regularize_groups rw rest s1"
    by (simp add: s1_def)
  also have "\<dots> = fold (\<lambda>(g, i). assign_param rw g i)
       (concat (map (\<lambda>k. map (\<lambda>i. (k, i)) [0..<length (params (optimizer s ! k))]) rest)) s1"
    using Cons.IH [OF rest] by (simp only: same)
  finally show ?case
    by (simp add: s1)
qed

lemma assign_param_other:
  assumes "(g, i) \<noteq> (g', i')"
  shows "params (optimizer (assign_param rw g' i' s) ! g) ! i = params (optimizer s ! g) ! i"
proof (cases "g' < length (optimizer s)")
  case False
  then show ?thesis
    by (simp add: assign_param_def Let_def set_data_def list_update_beyond)
next
  case True
  show ?thesis
  proof (cases "g = g'")
    case True
    with assms have "i \<noteq> i'" by simp
    with True \<open>g' < length (optimizer s)\<close> show ?thesis
      by (simp add: assign_param_def Let_def set_data_def)
  next
    case False
    then show ?thesis
      by (simp add: assign_param_def Let_def set_data_def)
  qed
qed

lemma fold_assign_other:
  "(g, i) \<notin> set ps \<Longrightarrow>
     params (optimizer (fold (\<lambda>(g, i). assign_param rw g i) ps s) ! g) ! i = params (optimizer s ! g) ! i"
proof (induction ps arbitrary: s)
  case Nil
  then show ?case by simp
next
  case (Cons q ps)
  obtain g' i' where q: "q = (g', i')"
    by (cases q)
  with Cons.prems have ne: "(g, i) \<noteq> (g', i')" and notin: "(g, i) \<notin> set ps"
    by auto
  show ?case
    using Cons.IH [OF notin] assign_param_other [OF ne] by (simp add: q)
qed

lemma assign_param_self:
  assumes "g < length (optimizer s)" and "i < length (params (optimizer s ! g))"
  shows "params (optimizer (assign_param rw g i s) ! g) ! i
       = params (optimizer s ! g) ! i + rw s (params (optimizer s ! g) ! i) (optimizer s ! g)"
  using assms by (simp add: assign_param_def Let_def set_data_def)

lemma assign_param_trace:
  "trace (assign_param rw g i s)
     = trace s @ [SetData g i (params (optimizer s ! g) ! i + rw s (params (optimizer s ! g) ! i) (optimizer s ! g))]"
  by (simp add: assign_param_def Let_def)

lemma fold_assign_trace:
  assumes "distinct ps"
    and "\<forall>(g, i)\<in>set ps. g < length (optimizer s) \<and> i < length (params (optimizer s ! g))"
  shows "trace (fold (\<lambda>(g, i). assign_param rw g i) ps s)
       = trace s @ map (\<lambda>(g, i). SetData g i
           (params (optimizer (fold (\<lambda>(g, i). assign_param rw g i) ps s) ! g) ! i)) ps"
  using assms
proof (induction ps arbitrary: s)
  case Nil
  then show ?case by simp
next
  case (Cons q ps)
  obtain g i where q: "q = (g, i)"
    by (cases q)
  define s1 where "s1 = assign_param rw g i s"
  define final where "final = fold (\<lambda>(g, i). assign_param rw g i) ps s1"
  have g: "g < length (optimizer s)" and i: "i < length (params (optimizer s ! g))"
    and notin: "(g, i) \<notin> set ps" and dist: "distinct ps"
    using Cons.prems by (auto simp: q)
  have shape: "map (\<lambda>gr. length (params gr)) (optimizer s1) = map (\<lambda>gr. length (params gr)) (optimizer s)"
    by (simp add: s1_def assign_param_shape)
  have range1: "\<forall>(g, i)\<in>set ps. g < length (optimizer s1) \<and> i < length (params (optimizer s1 ! g))"
    using Cons.prems(2) shape_nth [OF shape] by auto
  have IH: "trace final = trace s1 @ map (\<lambda>(g, i). SetData g i (params (optimizer final ! g) ! i)) ps"
    unfolding final_def by (rule Cons.IH [OF dist range1])
  have "params (optimizer final ! g) ! i = params (optimizer s1 ! g) ! i"
    unfolding final_def by (rule fold_assign_other [OF notin])
  also have "\<dots> = params (optimizer s ! g) ! i + rw s (params (optimizer s ! g) ! i) (optimizer s ! g)"
    unfolding s1_def by (rule assign_param_self [OF g i])
  finally have own: "params (optimizer final ! g) ! i
      = params (optimizer s ! g) ! i + rw s (params (optimizer s ! g) ! i) (optimizer s ! g)" .
  have "trace (fold (\<lambda>(g, i). assign_param rw g i) (q # ps) s)
      = trace s @ map (\<lambda>(g, i). SetData g i (params (optimizer final ! g) ! i)) (q # ps)"
    using IH by (simp add: q final_def [symmetric] s1_def [symmetric] own)
       (simp add: s1_def assign_param_trace)
  then show ?case
    by (simp add: q final_def s1_def)
qed

lemma distinct_positions:
  "distinct gs \<Longrightarrow> distinct (concat (map (\<lambda>g. map (\<lambda>i. (g, i)) [0..<n g]) gs))"
  by (induction gs) (auto simp: distinct_map inj_on_def)

lemma distinct_param_positions: "distinct (param_positions groups)"
  unfolding param_positions_def by (rule distinct_positions) simp

lemma set_param_positions:
  "set (param_positions groups) = {(g, i). g < length groups \<and> i < length (params (groups ! g))}"
  by (auto simp: param_positions_def)

lemma reached_0: "reached rw self loss 0 = self\<lparr>trace := trace self @ [Backward loss]\<rparr>"
  by (simp add: reached_def)

lemma reached_Suc:
  assumes "k < length (param_positions (optimizer self))"
  shows "reached rw self loss (Suc k)
       = (case param_positions (optimizer self) ! k of (g, i) \<Rightarrow> assign_param rw g i (reached rw self loss k))"
  using assms by (simp add: reached_def take_Suc_conv_app_nth split: prod.splits)

lemma reached_shape:
  "map (\<lambda>gr. length (params gr)) (optimizer (reached rw self loss k))
     = map (\<lambda>gr. length (params gr)) (optimizer self)"
  by (simp add: reached_def fold_assign_shape)

lemma reached_lr: "map lr (optimizer (reached rw self loss k)) = map lr (optimizer self)"
  by (simp add: reached_def fold_assign_lr)

lemma WeightRegularizer_regularize_reached:
  "WeightRegularizer_regularize rw self loss
     = (None, reached rw self loss (length (param_positions (optimizer self))))"
  by (simp add: WeightRegularizer_regularize_def Let_def reached_def regularize_groups_fold
        param_positions_def)

lemma reached_own_value:
  assumes k: "k < length (param_positions (optimizer self))"
    and gi: "param_positions (optimizer self) ! k = (g, i)"
  shows "params (optimizer (reached rw self loss k) ! g) ! i = params (optimizer self ! g) ! i"
    and "params (optimizer (reached rw self loss (length (param_positions (optimizer self)))) ! g) ! i
       = params (optimizer self ! g) ! i
           + rw (reached rw self loss k) (params (optimizer self ! g) ! i)
               (optimizer (reached rw self loss k) ! g)"
proof -
  define P where "P = param_positions (optimizer self)"
  define s0 where "s0 = self\<lparr>trace := trace self @ [Backward loss]\<rparr>"
  have split: "P = take k P @ (g, i) # drop (Suc k) P"
    using k gi id_take_nth_drop [of k P] by (simp add: P_def)
  have "distinct P"
    by (simp add: P_def distinct_param_positions)
  then have "distinct (take k P @ (g, i) # drop (Suc k) P)"
    using split by simp
  then have before: "(g, i) \<notin> set (take k P)" and after: "(g, i) \<notin> set (drop (Suc k) P)"
    by auto
  have "(g, i) \<in> set P"
    using k gi by (auto simp: P_def in_set_conv_nth)
  then have range: "g < length (optimizer self)" "i < length (params (optimizer self ! g))"
    by (simp_all add: P_def set_param_positions)
  have range_k: "g < length (optimizer (reached rw self loss k))"
      "i < length (params (optimizer (reached rw self loss k) ! g))"
    using range shape_nth [OF reached_shape [of rw self loss k]] by simp_all
  show untouched: "params (optimizer (reached rw self loss k) ! g) ! i = params (optimizer self ! g) ! i"
    using fold_assign_other [OF before, of rw s0] by (simp add: reached_def P_def s0_def)
  have "reached rw self loss (length P)
      = fold (\<lambda>(g, i). assign_param rw g i) (drop (Suc k) P) (assign_param rw g i (reached rw self loss k))"
  proof -
    have "reached rw self loss (length P) = fold (\<lambda>(g, i). assign_param rw g i) P s0"
      by (simp add: reached_def P_def s0_def)
    also have "\<dots> = fold (\<lambda>(g, i). assign_param rw g i) (take k P @ (g, i) # drop (Suc k) P) s0"
      using split by simp
    also have "\<dots> = fold (\<lambda>(g, i). assign_param rw g i) (drop (Suc k) P)
                       (assign_param rw g i (fold (\<lambda>(g, i). assign_param rw g i) (take k P) s0))"
      by simp
    finally show ?thesis
      by (simp add: reached_def P_def s0_def)
  qed
  then have "params (optimizer (reached rw self loss (length P)) ! g) ! i
      = params (optimizer (assign_param rw g i (reached rw self loss k)) ! g) ! i"
    using fold_assign_other [OF after] by simp
  also have "\<dots> = params (optimizer (reached rw self loss k) ! g) ! i
        + rw (reached rw self loss k) (params (optimizer (reached rw self loss k) ! g) ! i)
            (optimizer (reached rw self loss k) ! g)"
    by (rule assign_param_self [OF range_k])
  finally show "params (optimizer (reached rw self loss (length (param_positions (optimizer self)))) ! g) ! i
       = params (optimizer self ! g) ! i
           + rw (reached rw self loss k) (params (optimizer self ! g) ! i)
               (optimizer (reached rw self loss k) ! g)"
    by (simp add: untouched P_def)
qed

lemma reached_trace:
  "trace (reached rw self loss (length (param_positions (optimizer self))))
     = trace self @ Backward loss #
         map (\<lambda>(g, i). SetData g i
                (params (optimizer (reached rw self loss (length (param_positions (optimizer self)))) ! g) ! i))
           (param_positions (optimizer self))"
  using fold_assign_trace [of "param_positions (optimizer self)"
          "self\<lparr>trace := trace self @ [Backward loss]\<rparr>" rw]
  by (simp add: reached_def distinct_param_positions set_param_positions)

text \<open>
  C6. For every loss and every \<^verbatim>\<open>_regularize_weight\<close>:
  \<^item> \<open>param_positions\<close> lists every parameter of every group once;
  \<^item> the call first runs the backward pass on the loss as it was given (\<open>reached \<dots> 0\<close>),
    then makes one assignment per position, in order (\<open>reached \<dots> (Suc k)\<close>), and returns
    when all are made;
  \<^item> the parameter at the \<open>k\<close>-th position still has its original value when the loop
    reaches it, and its value after the call is that value plus
    \<^verbatim>\<open>_regularize_weight(param, group)\<close>, evaluated on the object and the group as they
    are at that moment;
  \<^item> the trace gains the backward pass and then, for each position in order, the
    assignment of the value the parameter has after the call; the logger gets no record;
  \<^item> every group keeps its number of parameters and its learning rate.

  When the adjustment reads neither the other parameters nor the trace, the object and
  the group of that moment can be replaced by the original ones, which gives the closed
  form of the last conjunct.
\<close>

theorem WeightRegularizer_regularize_mutates:
  fixes regularize_weight :: "('a::plus, 'z) Regularizer_scheme \<Rightarrow> 'a \<Rightarrow> 'a param_group \<Rightarrow> 'a"
  shows "distinct (param_positions (optimizer self))
   \<and> set (param_positions (optimizer self))
       = {(g, i). g < length (optimizer self) \<and> i < length (params (optimizer self ! g))}
   \<and> reached regularize_weight self loss 0 = self\<lparr>trace := trace self @ [Backward loss]\<rparr>
   \<and> (\<forall>k<length (param_positions (optimizer self)).
         reached regularize_weight self loss (Suc k)
           = (case param_positions (optimizer self) ! k of
                (g, i) \<Rightarrow> assign_param regularize_weight g i (reached regularize_weight self loss k)))
   \<and> WeightRegularizer_regularize regularize_weight self loss
       = (None, reached regularize_weight self loss (length (param_positions (optimizer self))))
   \<and> (\<forall>k<length (param_positions (optimizer self)).
         case param_positions (optimizer self) ! k of
           (g, i) \<Rightarrow>
             params (optimizer (reached regularize_weight self loss k) ! g) ! i
               = params (optimizer self ! g) ! i
           \<and> params (optimizer (snd (WeightRegularizer_regularize regularize_weight self loss)) ! g) ! i
               = params (optimizer self ! g) ! i
                   + regularize_weight (reached regularize_weight self loss k)
                       (params (optimizer self ! g) ! i)
                       (optimizer (reached regularize_weight self loss k) ! g))
   \<and> trace (snd (WeightRegularizer_regularize regularize_weight self loss))
       = trace self @ Backward loss #
           map (\<lambda>(g, i). SetData g i
                  (params (optimizer (snd (WeightRegularizer_regularize regularize_weight self loss)) ! g) ! i))
             (param_positions (optimizer self))
   \<and> logger_records (trace (snd (WeightRegularizer_regularize regularize_weight self loss)))
       = logger_records (trace self)
   \<and> map (\<lambda>gr. length (params gr)) (optimizer (snd (WeightRegularizer_regularize regularize_weight self loss)))
       = map (\<lambda>gr. length (params gr)) (optimizer self)
   \<and> map lr (optimizer (snd (WeightRegularizer_regularize regularize_weight self loss)))
       = map lr (optimizer self)
   \<and> ((\<forall>s w gr opt tr ps.
          regularize_weight (s\<lparr>optimizer := opt, trace := tr\<rparr>) w (gr\<lparr>params := ps\<rparr>)
            = regularize_weight s w gr) \<longrightarrow>
        WeightRegularizer_regularize regularize_weight self loss =
          (None,
           self\<lparr>optimizer :=
                  map (\<lambda>gr. gr\<lparr>params := map (\<lambda>weight. weight + regularize_weight self weight gr) (params gr)\<rparr>)
                    (optimizer self),
                trace := trace self @ Backward loss #
                  concat (map (\<lambda>g. map (\<lambda>i. SetData g i
                            (params (optimizer self ! g) ! i
                               + regularize_weight self (params (optimizer self ! g) ! i) (optimizer self ! g)))
                            [0..<length (params (optimizer self ! g))])
                          [0..<length (optimizer self)])\<rparr>))"
proof -
  define n where "n = length (param_positions (optimizer self))"
  have result: "WeightRegularizer_regularize regularize_weight self loss
              = (None, reached regularize_weight self loss n)"
    unfolding n_def by (rule WeightRegularizer_regularize_reached)
  have steps: "\<forall>k<n. reached regularize_weight self loss (Suc k)
           = (case param_positions (optimizer self) ! k of
                (g, i) \<Rightarrow> assign_param regularize_weight g i (reached regularize_weight self loss k))"
    by (simp add: n_def reached_Suc)
  have "params (optimizer (reached regularize_weight self loss k) ! g) ! i
               = params (optimizer self ! g) ! i
           \<and> params (optimizer (reached regularize_weight self loss n) ! g) ! i
               = params (optimizer self ! g) ! i
                   + regularize_weight (reached regularize_weight self loss k)
                       (params (optimizer self ! g) ! i)
                       (optimizer (reached regularize_weight self loss k) ! g)"
    if "k < n" and "param_positions (optimizer self) ! k = (g, i)" for k g i
    using reached_own_value [of k self g i regularize_weight loss] that by (simp add: n_def)
  then have own_values: "\<forall>k<n. case param_positions (optimizer self) ! k of
           (g, i) \<Rightarrow>
             params (optimizer (reached regularize_weight self loss k) ! g) ! i
               = params (optimizer self ! g) ! i
           \<and> params (optimizer (reached regularize_weight self loss n) ! g) ! i
               = params (optimizer self ! g) ! i
                   + regularize_weight (reached regularize_weight self loss k)
                       (params (optimizer self ! g) ! i)
                       (optimizer (reached regularize_weight self loss k) ! g)"
    by (auto split: prod.splits)
  have events: "trace (reached regularize_weight self loss n)
       = trace self @ Backward loss #
           map (\<lambda>(g, i). SetData g i (params (optimizer (reached regularize_weight self loss n) ! g) ! i))
             (param_positions (optimizer self))"
    unfolding n_def by (rule reached_trace)
  have "\<forall>e\<in>set (map (\<lambda>(g, i). SetData g i
                  (params (optimizer (reached regularize_weight self loss n) ! g) ! i))
             (param_positions (optimizer self))). \<exists>g i x. e = SetData g i x"
    by auto
  then have records: "logger_records (trace (reached regularize_weight self loss n))
       = logger_records (trace self)"
    unfolding events
    by (simp add: logger_records_append logger_records_no_LoggerRecord del: set_map)
  define self1 where "self1 = self\<lparr>trace := trace self @ [Backward loss]\<rparr>"
  have opt1: "optimizer self1 = optimizer self" and tr1: "trace self1 = trace self @ [Backward loss]"
    by (simp_all add: self1_def)
  have closed: "WeightRegularizer_regularize regularize_weight self loss =
          (None,
           self\<lparr>optimizer :=
                  map (\<lambda>gr. gr\<lparr>params := map (\<lambda>weight. weight + regularize_weight self weight gr) (params gr)\<rparr>)
                    (optimizer self),
                trace := trace self @ Backward loss #
                  concat (map (\<lambda>g. map (\<lambda>i. SetData g i
                            (params (optimizer self ! g) ! i
                               + regularize_weight self (params (optimizer self ! g) ! i) (optimizer self ! g)))
                            [0..<length (params (optimizer self ! g))])
                          [0..<length (optimizer self)])\<rparr>)"
    if frame: "\<And>s w gr opt tr ps.
          regularize_weight (s\<lparr>optimizer := opt, trace := tr\<rparr>) w (gr\<lparr>params := ps\<rparr>)
            = regularize_weight s w gr"
  proof -
    have "regularize_weight self1 w gr = regularize_weight self w gr" for w gr
      using frame [where s = self and opt = "optimizer self" and tr = "trace self @ [Backward loss]"
                     and w = w and gr = gr and ps = "params gr"]
      by (simp add: self1_def)
    then have frame': "regularize_weight self1 = regularize_weight self"
      by (intro ext)
    have loops: "regularize_groups regularize_weight [0..<length (optimizer self)] self1 =
       self1\<lparr>optimizer := map (\<lambda>k. if k \<in> set [0..<length (optimizer self)]
                then (optimizer self ! k)\<lparr>params :=
                       map (\<lambda>weight. weight + regularize_weight self weight (optimizer self ! k))
                         (params (optimizer self ! k))\<rparr>
                else optimizer self ! k) [0..<length (optimizer self)],
          trace := (trace self @ [Backward loss]) @ concat (map (\<lambda>k. map (\<lambda>i. SetData k i
             (params (optimizer self ! k) ! i
                + regularize_weight self (params (optimizer self ! k) ! i) (optimizer self ! k)))
             [0..<length (params (optimizer self ! k))]) [0..<length (optimizer self)])\<rparr>"
      using regularize_groups_closed
              [where rw = regularize_weight and gs = "[0..<length (optimizer self)]" and s = self1,
               OF frame]
      unfolding opt1 tr1 frame' by simp
    have groups: "map (\<lambda>k. if k \<in> set [0..<length (optimizer self)]
                then (optimizer self ! k)\<lparr>params :=
                       map (\<lambda>weight. weight + regularize_weight self weight (optimizer self ! k))
                         (params (optimizer self ! k))\<rparr>
                else optimizer self ! k) [0..<length (optimizer self)]
       = map (\<lambda>gr. gr\<lparr>params := map (\<lambda>weight. weight + regularize_weight self weight gr) (params gr)\<rparr>)
           (optimizer self)"
      by (rule nth_equalityI) simp_all
    show ?thesis
      unfolding WeightRegularizer_regularize_def Let_def self1_def [symmetric] opt1 loops groups
      by (simp add: self1_def)
  qed
  from distinct_param_positions [of "optimizer self"] set_param_positions [of "optimizer self"]
    reached_0 [of regularize_weight self loss] steps own_values events records
    reached_shape [of regularize_weight self loss n] reached_lr [of regularize_weight self loss n]
    closed
  show ?thesis
    unfolding result n_def [symmetric] snd_conv by blast
qed

text \<open>
  The end-to-end scenario of the spec: one group with learning rate \<open>0.1\<close> holding one
  parameter of value \<open>2.0\<close>, weight decay with lambda \<open>0.5\<close>. The delta is \<open>-0.1\<close> and the
  parameter is reassigned to \<open>2.0 + -0.1\<close>, after the backward pass on the loss. And an
  adjustment that reads the other parameters, the sum of the group's parameters: on the
  group \<open>[1, 10]\<close> the first parameter becomes \<open>1 + 11\<close> and the second \<open>10 + 22\<close>.
\<close>

theorem WeightRegularizer_regularize_mutates_witness:
  "WeightDecayRegularizer_regularize_weight
      (Regularizer_init [\<lparr>params = [2], lr = 1/10\<rparr>] (1/2 :: real) ConstantParamScaler [])
      2 \<lparr>params = [2], lr = 1/10\<rparr> = - (1/10)
 \<and> WeightRegularizer_regularize WeightDecayRegularizer_regularize_weight
      (Regularizer_init [\<lparr>params = [2], lr = 1/10\<rparr>] (1/2 :: real) ConstantParamScaler []) 3
    = (None,
       \<lparr>optimizer = [\<lparr>params = [2 + - (1/10)], lr = 1/10\<rparr>], lambda' = 1/2,
        lambda_updater = ConstantParamScaler,
        trace = [LoggerRecord ''regularization_lambda'' (1/2), Backward 3, SetData 0 0 (2 + - (1/10))]\<rparr>)
 \<and> logger_records (trace (snd (WeightRegularizer_regularize WeightDecayRegularizer_regularize_weight
      (Regularizer_init [\<lparr>params = [2], lr = 1/10\<rparr>] (1/2 :: real) ConstantParamScaler []) 3)))
    = [(''regularization_lambda'', 1/2)]
 \<and> WeightRegularizer_regularize (\<lambda>s w gr. sum_list (params gr))
      (Regularizer_init [\<lparr>params = [1, 10], lr = 1/10\<rparr>] (1/2 :: real) ConstantParamScaler []) 3
    = (None,
       \<lparr>optimizer = [\<lparr>params = [12, 32], lr = 1/10\<rparr>], lambda' = 1/2,
        lambda_updater = ConstantParamScaler,
        trace = [LoggerRecord ''regularization_lambda'' (1/2), Backward 3, SetData 0 0 12,
                 SetData 0 (Suc 0) 32]\<rparr>)"
proof -
  have "WeightRegularizer_regularize WeightDecayRegularizer_regularize_weight
      (Regularizer_init [\<lparr>params = [2], lr = 1/10\<rparr>] (1/2 :: real) ConstantParamScaler []) 3
    = (None, reached WeightDecayRegularizer_regularize_weight
        (Regularizer_init [\<lparr>params = [2], lr = 1/10\<rparr>] (1/2 :: real) ConstantParamScaler []) 3
        (length (param_positions (optimizer
           (Regularizer_init [\<lparr>params = [2], lr = 1/10\<rparr>] (1/2 :: real) ConstantParamScaler [])))))"
    using WeightRegularizer_regularize_mutates
        [where regularize_weight = WeightDecayRegularizer_regularize_weight
           and self = "Regularizer_init [\<lparr>params = [2], lr = 1/10\<rparr>] (1/2 :: real) ConstantParamScaler []"
           and loss = 3]
    by blast
  then have decay: "WeightRegularizer_regularize WeightDecayRegularizer_regularize_weight
      (Regularizer_init [\<lparr>params = [2], lr = 1/10\<rparr>] (1/2 :: real) ConstantParamScaler []) 3
    = (None,
       \<lparr>optimizer = [\<lparr>params = [2 + - (1/10)], lr = 1/10\<rparr>], lambda' = 1/2,
        lambda_updater = ConstantParamScaler,
        trace = [LoggerRecord ''regularization_lambda'' (1/2), Backward 3, SetData 0 0 (2 + - (1/10))]\<rparr>)"
    by (simp add: Regularizer_init_def reached_def param_positions_def assign_param_def set_data_def
          Let_def WeightDecayRegularizer_regularize_weight_def)
  have "WeightRegularizer_regularize (\<lambda>s w gr. sum_list (params gr))
      (Regularizer_init [\<lparr>params = [1, 10], lr = 1/10\<rparr>] (1/2 :: real) ConstantParamScaler []) 3
    = (None, reached (\<lambda>s w gr. sum_list (params gr))
        (Regularizer_init [\<lparr>params = [1, 10], lr = 1/10\<rparr>] (1/2 :: real) ConstantParamScaler []) 3
        (length (param_positions (optimizer
           (Regularizer_init [\<lparr>params = [1, 10], lr = 1/10\<rparr>] (1/2 :: real) ConstantParamScaler [])))))"
    using WeightRegularizer_regularize_mutates
        [where regularize_weight = "\<lambda>s w gr. sum_list (params gr)"
           and self = "Regularizer_init [\<lparr>params = [1, 10], lr = 1/10\<rparr>] (1/2 :: real) ConstantParamScaler []"
           and loss = 3]
    by blast
  then have sum: "WeightRegularizer_regularize (\<lambda>s w gr. sum_list (params gr))
      (Regularizer_init [\<lparr>params = [1, 10], lr = 1/10\<rparr>] (1/2 :: real) ConstantParamScaler []) 3
    = (None,
       \<lparr>optimizer = [\<lparr>params = [12, 32], lr = 1/10\<rparr>], lambda' = 1/2,
        lambda_updater = ConstantParamScaler,
        trace = [LoggerRecord ''regularization_lambda'' (1/2), Backward 3, SetData 0 0 12,
                 SetData 0 (Suc 0) 32]\<rparr>)"
    by (simp add: Regularizer_init_def reached_def param_positions_def assign_param_def set_data_def
          Let_def)
  show ?thesis
    unfolding decay sum
    by (simp add: Regularizer_init_def WeightDecayRegularizer_regularize_weight_def)
qed

subsection \<open>The lambda field\<close>

text \<open>
  C8, as stated, at a regularizer constructed with an infinite lambda: the constructor
  stores what it is given, and the field is not finite.
\<close>

theorem Regularizer_init_infinite_lambda:
  "\<not> isfinite (lambda' (Regularizer_init [] PosInf ConstantParamScaler []))"
  by (simp add: Regularizer_init_def)

text \<open>
  C8 (amended). The lambda field is the value given at construction, finite exactly when
  that value is, and only \<open>update_params\<close> changes it: \<open>regularize\<close> of both families
  leaves it as it was, whatever the penalty methods are (they are functions of the object
  and assign nothing), and \<open>update_params\<close> sets it to the value the strategy returns,
  leaving it as it was when the strategy is a ConstantParamScaler or raises.
\<close>

theorem lambda_changes_only_in_update_params:
  "lambda' (Regularizer_init optimizer0 initial_lambda updater0 logger) = initial_lambda
 \<and> isfinite (lambda' (Regularizer_init optimizer1 initial_float updater1 logger1)) = isfinite initial_float
 \<and> lambda' (snd (LossRegularizer_regularize regularize_loss self loss)) = lambda' self
 \<and> lambda' (snd (WeightRegularizer_regularize regularize_weight self loss)) = lambda' self
 \<and> lambda' (snd (update_params self train_loss val_loss)) =
      (if isinstance_ConstantParamScaler (lambda_updater self) then lambda' self
       else case updater_call (lambda_updater self) (lambda' self) train_loss val_loss of
              Inl e \<Rightarrow> lambda' self
            | Inr new_lambda \<Rightarrow> new_lambda)"
  by (simp add: Regularizer_init_def LossRegularizer_regularize_def WeightRegularizer_regularize_def
        update_params_def Let_def regularize_groups_lambda split: sum.splits)

end
